theory Spec2Isabelle
  imports Complex_Main "HOL-Library.Sublist"
begin

section \<open>JavaScript containers and values\<close>

text \<open>
  A JavaScript \<open>Map\<close> keeps its entries in insertion order and holds each key once; it is an
  association list here. \<open>set\<close> on a key that is already there replaces the value in place,
  \<open>set\<close> on a new key appends the entry.
\<close>

type_synonym ('k, 'v) jsmap = "('k \<times> 'v) list"

definition Map_get :: "('k, 'v) jsmap \<Rightarrow> 'k \<Rightarrow> 'v option" where
  "Map_get m k = map_of m k"

definition Map_has :: "('k, 'v) jsmap \<Rightarrow> 'k \<Rightarrow> bool" where
  "Map_has m k = (map_of m k \<noteq> None)"

fun Map_set :: "('k, 'v) jsmap \<Rightarrow> 'k \<Rightarrow> 'v \<Rightarrow> ('k, 'v) jsmap" where
  "Map_set [] k v = [(k, v)]"
| "Map_set ((k', v') # m) k v =
     (if k' = k then (k, v) # m else (k', v') # Map_set m k v)"

definition Map_delete :: "('k, 'v) jsmap \<Rightarrow> 'k \<Rightarrow> ('k, 'v) jsmap" where
  "Map_delete m k = filter (\<lambda>e. fst e \<noteq> k) m"

definition Map_values :: "('k, 'v) jsmap \<Rightarrow> 'v list" where
  "Map_values m = map snd m"

text \<open>A JavaScript \<open>Set\<close>: its members once each, in insertion order.\<close>

definition Set_has :: "'a list \<Rightarrow> 'a \<Rightarrow> bool" where
  "Set_has xs x = (x \<in> set xs)"

definition Set_add :: "'a list \<Rightarrow> 'a \<Rightarrow> 'a list" where
  "Set_add xs x = (if x \<in> set xs then xs else xs @ [x])"

definition Set_delete :: "'a list \<Rightarrow> 'a \<Rightarrow> 'a list" where
  "Set_delete xs x = removeAll x xs"

text \<open>
  The value tree that \<open>JSON.stringify\<close> is applied to. \<open>JSON.stringify\<close> itself is a builtin
  of the language and the hash function \<open>calculateHash\<close> of the crypto manager is not part of
  the sources; both are parameters, collected with the outcome of \<open>crypto.subtle.verify\<close> in
  the record \<open>env\<close>.
\<close>

datatype json = JNull | JNum int | JStr string | JArr "json list" | JObj "(string \<times> json) list"

record env =
  stringify :: "json \<Rightarrow> string"
  calculateHash :: "string \<Rightarrow> string"
  subtleVerify :: "string \<Rightarrow> string \<Rightarrow> string \<Rightarrow> bool"

text \<open>
  The result of an \<open>async\<close> function is a promise. \<open>Promise v\<close> is the promise that will
  resolve to \<open>v\<close>; the code that receives it without \<open>await\<close> sees an object, not \<open>v\<close>.
\<close>

datatype 'a promise = Promise 'a

text \<open>
  A signature field holds \<open>null\<close>, a string, or (where \<open>signData\<close> was called without
  \<open>await\<close>) a promise object.
\<close>

datatype sigval = SigNull | SigStr string | SigPromise

fun sig_truthy :: "sigval \<Rightarrow> bool" where
  "sig_truthy SigNull = False"
| "sig_truthy (SigStr s) = (s \<noteq> [])"
| "sig_truthy SigPromise = True"

fun sig_json :: "sigval \<Rightarrow> json" where
  "sig_json SigNull = JNull"
| "sig_json (SigStr s) = JStr s"
| "sig_json SigPromise = JObj []"

section \<open>Ledger data (blockchain.js)\<close>

record transaction =
  tx_id :: string
  tx_from :: string
  tx_to :: string
  tx_data :: string
  tx_amount :: int
  tx_timestamp :: nat
  tx_signature :: sigval

record block =
  index :: nat
  timestamp :: nat
  transactions :: "transaction list"
  previousHash :: string
  hash :: string
  nonce :: nat
  author :: string
  signature :: sigval

record vote =
  blockHash :: string
  voter :: string
  approve :: bool
  vote_timestamp :: nat

datatype cstate = Idle | Proposing | Voting

text \<open>
  The fields of \<open>BlockchainManager\<close>. \<open>nodeId\<close> is \<open>networkManager.nodeId\<close>;
  \<open>blockTimer\<close> tells whether the block-production interval is armed.
\<close>

record node =
  nodeId :: string
  blockchain :: "block list"
  mempool :: "(string, transaction) jsmap"
  whitelistedPeers :: "string list"
  currentLeader :: "string option"
  isLeader :: bool
  blockTimer :: bool
  consensusState :: cstate
  pendingBlock :: "block option"
  votes :: "(string, (string, vote) jsmap) jsmap"
  minVotes :: nat

text \<open>Assigned once in the constructor and never changed.\<close>

definition leaderRotationInterval :: nat where
  "leaderRotationInterval = 30000"

section \<open>Validation\<close>

text \<open>
  \<open>CryptoUtils.verifySignature\<close> is \<open>async\<close>: whatever happens inside (a key that does not
  import, a signature that is not base64, a failed verification), the caller gets a promise.
  The data is passed through \<open>JSON.stringify\<close> once more before it is verified.
\<close>

definition verifySignature :: "env \<Rightarrow> string \<Rightarrow> sigval \<Rightarrow> string \<Rightarrow> bool promise" where
  "verifySignature c dat sg publicKeyString =
     Promise (case sg of
                SigStr s \<Rightarrow> subtleVerify c publicKeyString s (stringify c (JStr dat))
              | _ \<Rightarrow> False)"

text \<open>What \<open>validateTransaction\<close> returns: a boolean, or the verifier's promise.\<close>

datatype validation = VBool bool | VPromise "bool promise"

fun truthy :: "validation \<Rightarrow> bool" where
  "truthy (VBool b) = b"
| "truthy (VPromise p) = True"

definition tx_sign_json :: "transaction \<Rightarrow> json" where
  "tx_sign_json t =
     JObj [(''from'', JStr (tx_from t)), (''to'', JStr (tx_to t)), (''data'', JStr (tx_data t)),
           (''amount'', JNum (tx_amount t)), (''timestamp'', JNum (int (tx_timestamp t)))]"

definition validateTransaction :: "env \<Rightarrow> transaction \<Rightarrow> validation" where
  "validateTransaction c t =
     (if tx_id t = [] \<or> tx_from t = [] \<or> tx_timestamp t = 0 then VBool False
      else if sig_truthy (tx_signature t)
           then VPromise (verifySignature c (stringify c (tx_sign_json t)) (tx_signature t) (tx_from t))
           else VBool True)"

definition tx_json :: "transaction \<Rightarrow> json" where
  "tx_json t =
     JObj [(''id'', JStr (tx_id t)), (''from'', JStr (tx_from t)), (''to'', JStr (tx_to t)),
           (''data'', JStr (tx_data t)), (''amount'', JNum (tx_amount t)),
           (''timestamp'', JNum (int (tx_timestamp t))), (''signature'', sig_json (tx_signature t))]"

definition calculateBlockHash :: "env \<Rightarrow> block \<Rightarrow> string" where
  "calculateBlockHash c b =
     calculateHash c (stringify c
       (JObj [(''index'', JNum (int (index b))), (''timestamp'', JNum (int (timestamp b))),
              (''transactions'', JArr (map tx_json (transactions b))),
              (''previousHash'', JStr (previousHash b)), (''nonce'', JNum (int (nonce b))),
              (''author'', JStr (author b))]))"

text \<open>The loop over the transactions of a block: the first falsy validation returns false.\<close>

fun validate_transactions :: "env \<Rightarrow> transaction list \<Rightarrow> bool" where
  "validate_transactions c [] = True"
| "validate_transactions c (t # ts) =
     (if \<not> truthy (validateTransaction c t) then False else validate_transactions c ts)"

text \<open>
  \<open>validateBlock\<close>. On an empty chain \<open>previousBlock\<close> is \<open>undefined\<close>, reading its
  \<open>hash\<close> throws, and the \<open>catch\<close> returns false.
\<close>

definition validateBlock :: "env \<Rightarrow> node \<Rightarrow> block \<Rightarrow> bool" where
  "validateBlock c s b =
     (if index b = 0 \<or> timestamp b = 0 \<or> hash b = [] \<or> previousHash b = [] then False
      else if index b \<noteq> length (blockchain s) then False
      else (case blockchain s of
              [] \<Rightarrow> False
            | _ # _ \<Rightarrow>
               (if previousHash b \<noteq> hash (last (blockchain s)) then False
                else if hash b \<noteq> calculateBlockHash c b then False
                else if sig_truthy (signature b)
                        \<and> \<not> truthy (VPromise (verifySignature c (hash b) (signature b) (author b)))
                     then False
                else validate_transactions c (transactions b))))"

section \<open>Leader schedule\<close>

definition startBlockProduction :: "node \<Rightarrow> node" where
  "startBlockProduction s = s\<lparr>blockTimer := True\<rparr>"

definition stopBlockProduction :: "node \<Rightarrow> node" where
  "stopBlockProduction s = s\<lparr>blockTimer := False\<rparr>"

text \<open>
  \<open>updateLeader\<close> at wall-clock time \<open>now\<close> (\<open>Date.now()\<close>, a non-negative integer of
  milliseconds). The announcement and the \<open>leader-changed\<close> event leave the fields as they are.
\<close>

definition updateLeader :: "nat \<Rightarrow> node \<Rightarrow> node" where
  "updateLeader now s =
     (let whitelistedArray = whitelistedPeers s in
      if length whitelistedArray = 0 then s\<lparr>currentLeader := None, isLeader := False\<rparr>
      else
        let blockHeight = length (blockchain s);
            timeSlot = now div leaderRotationInterval;
            leaderIndex = (blockHeight + timeSlot) mod length whitelistedArray;
            newLeader = whitelistedArray ! leaderIndex;
            wasLeader = isLeader s;
            s1 = s\<lparr>currentLeader := Some newLeader, isLeader := (newLeader = nodeId s)\<rparr>
        in if isLeader s1 \<and> \<not> wasLeader then startBlockProduction s1
           else if \<not> isLeader s1 \<and> wasLeader then stopBlockProduction s1
           else s1)"

section \<open>Transactions and the mempool\<close>

datatype error = InvalidTransaction | FileNotFound | TooManyTransfers | SendFailed

definition submitTransaction :: "env \<Rightarrow> transaction \<Rightarrow> node \<Rightarrow> (error + string) \<times> node" where
  "submitTransaction c t s =
     (if \<not> truthy (validateTransaction c t) then (Inl InvalidTransaction, s)
      else (Inr (tx_id t), s\<lparr>mempool := Map_set (mempool s) (tx_id t) t\<rparr>))"

definition handleTransaction :: "env \<Rightarrow> transaction \<Rightarrow> node \<Rightarrow> node" where
  "handleTransaction c t s =
     (if \<not> truthy (validateTransaction c t) then s
      else if Map_has (mempool s) (tx_id t) then s
      else s\<lparr>mempool := Map_set (mempool s) (tx_id t) t\<rparr>)"

section \<open>Proposal, votes and commit\<close>

definition recordVote :: "vote \<Rightarrow> node \<Rightarrow> node" where
  "recordVote v s =
     (let blockVotes = (case Map_get (votes s) (blockHash v) of None \<Rightarrow> [] | Some m \<Rightarrow> m)
      in s\<lparr>votes := Map_set (votes s) (blockHash v) (Map_set blockVotes (voter v) v)\<rparr>)"

definition voteForBlock :: "nat \<Rightarrow> string \<Rightarrow> bool \<Rightarrow> node \<Rightarrow> node" where
  "voteForBlock now h a s =
     recordVote \<lparr>blockHash = h, voter = nodeId s, approve = a, vote_timestamp = now\<rparr> s"

definition handleBlockVote :: "string \<Rightarrow> vote \<Rightarrow> node \<Rightarrow> node" where
  "handleBlockVote peerId v s =
     (if \<not> Set_has (whitelistedPeers s) peerId then s else recordVote v s)"

definition handleBlockProposal :: "env \<Rightarrow> nat \<Rightarrow> string \<Rightarrow> block \<Rightarrow> node \<Rightarrow> node" where
  "handleBlockProposal c now peerId b s =
     (if Some peerId \<noteq> currentLeader s then s
      else if \<not> validateBlock c s b then voteForBlock now (hash b) False s
      else voteForBlock now (hash b) True s)"

text \<open>
  \<open>proposeBlock\<close>. \<open>signData\<close> is \<open>async\<close> and is not awaited, so the signature field of
  the new block holds a promise. With an empty chain \<open>previousBlock\<close> is \<open>undefined\<close>;
  the \<open>catch\<close> resets the consensus state.
\<close>

definition proposeBlock :: "env \<Rightarrow> nat \<Rightarrow> node \<Rightarrow> node" where
  "proposeBlock c now s =
     (if consensusState s \<noteq> Idle then s
      else
        let s0 = s\<lparr>consensusState := Proposing\<rparr> in
        case blockchain s of
          [] \<Rightarrow> s0\<lparr>consensusState := Idle\<rparr>
        | _ # _ \<Rightarrow>
           (let txs = take 10 (Map_values (mempool s));
                previousBlock = last (blockchain s);
                newBlock0 = \<lparr>index = index previousBlock + 1, timestamp = now,
                             transactions = txs, previousHash = hash previousBlock,
                             hash = [], nonce = 0, author = nodeId s, signature = SigNull\<rparr>;
                newBlock1 = newBlock0\<lparr>hash := calculateBlockHash c newBlock0\<rparr>;
                newBlock = newBlock1\<lparr>signature := SigPromise\<rparr>;
                s1 = s0\<lparr>pendingBlock := Some newBlock, votes := []\<rparr>
            in voteForBlock now (hash newBlock) True s1))"

text \<open>
  The callback of the block-production interval: it runs while the interval is armed and
  proposes only when the node is leader and the consensus state is idle.
\<close>

definition blockTimerFire :: "env \<Rightarrow> nat \<Rightarrow> node \<Rightarrow> node" where
  "blockTimerFire c now s =
     (if blockTimer s \<and> isLeader s \<and> consensusState s = Idle then proposeBlock c now s else s)"

definition remove_confirmed :: "transaction list \<Rightarrow> (string, transaction) jsmap \<Rightarrow> (string, transaction) jsmap" where
  "remove_confirmed ts m = fold (\<lambda>t m'. Map_delete m' (tx_id t)) ts m"

definition addBlock :: "env \<Rightarrow> block \<Rightarrow> node \<Rightarrow> bool \<times> node" where
  "addBlock c b s =
     (if \<not> validateBlock c s b then (False, s)
      else (True, s\<lparr>blockchain := blockchain s @ [b],
                     mempool := remove_confirmed (transactions b) (mempool s)\<rparr>))"

text \<open>\<open>Math.ceil(n / 2)\<close> on a size \<open>n\<close>.\<close>

definition ceil_half :: "nat \<Rightarrow> nat" where
  "ceil_half n = (n + 1) div 2"

definition approveCount :: "(string, vote) jsmap \<Rightarrow> nat" where
  "approveCount blockVotes = length (filter approve (Map_values blockVotes))"

definition rejectCount :: "(string, vote) jsmap \<Rightarrow> nat" where
  "rejectCount blockVotes = length (filter (\<lambda>v. \<not> approve v) (Map_values blockVotes))"

definition requiredVotes :: "node \<Rightarrow> nat" where
  "requiredVotes s = max (minVotes s) (ceil_half (length (whitelistedPeers s)))"

definition finalizeBlock :: "env \<Rightarrow> node \<Rightarrow> node" where
  "finalizeBlock c s =
     (case pendingBlock s of
        None \<Rightarrow> s\<lparr>consensusState := Idle\<rparr>
      | Some pb \<Rightarrow>
         (case Map_get (votes s) (hash pb) of
            None \<Rightarrow> s\<lparr>consensusState := Idle\<rparr>
          | Some blockVotes \<Rightarrow>
             (let s1 = (if approveCount blockVotes \<ge> requiredVotes s
                        then snd (addBlock c pb s) else s)
              in s1\<lparr>pendingBlock := None, consensusState := Idle\<rparr>)))"

text \<open>The single-shot timer armed by a proposal.\<close>

definition voteTimeoutFire :: "env \<Rightarrow> node \<Rightarrow> node" where
  "voteTimeoutFire c s = (if consensusState s = Proposing then finalizeBlock c s else s)"

section \<open>Catch-up synchronisation\<close>

text \<open>
  \<open>handleSyncResponse\<close>: the loop over the received blocks. A block that validates against
  the chain as it is at that moment is pushed; for any other block the loop body does nothing
  and the loop goes on.
\<close>

fun handleSyncResponse :: "env \<Rightarrow> block list \<Rightarrow> node \<Rightarrow> node" where
  "handleSyncResponse c [] s = s"
| "handleSyncResponse c (b # bs) s =
     (if validateBlock c s b
      then handleSyncResponse c bs
             (s\<lparr>blockchain := blockchain s @ [b],
                mempool := remove_confirmed (transactions b) (mempool s)\<rparr>)
      else handleSyncResponse c bs s)"

section \<open>Whitelist, announcements, construction\<close>

definition addWhitelistedPeer :: "string \<Rightarrow> node \<Rightarrow> node" where
  "addWhitelistedPeer peerId s = s\<lparr>whitelistedPeers := Set_add (whitelistedPeers s) peerId\<rparr>"

definition removeWhitelistedPeer :: "string \<Rightarrow> node \<Rightarrow> node" where
  "removeWhitelistedPeer peerId s = s\<lparr>whitelistedPeers := Set_delete (whitelistedPeers s) peerId\<rparr>"

definition handleLeaderAnnouncement :: "string \<Rightarrow> nat \<Rightarrow> node \<Rightarrow> node" where
  "handleLeaderAnnouncement leader blockHeight s =
     (if Set_has (whitelistedPeers s) leader \<and> blockHeight \<ge> length (blockchain s)
      then s\<lparr>currentLeader := Some leader, isLeader := (leader = nodeId s)\<rparr>
      else s)"

definition handlePeerDisconnected :: "nat \<Rightarrow> string \<Rightarrow> node \<Rightarrow> node" where
  "handlePeerDisconnected now peerId s =
     (if Some peerId = currentLeader s then updateLeader now s else s)"

definition createGenesisBlock :: "env \<Rightarrow> nat \<Rightarrow> block" where
  "createGenesisBlock c now =
     \<lparr>index = 0, timestamp = now, transactions = [], previousHash = ''0'',
      hash = calculateHash c ''genesis'', nonce = 0, author = ''genesis'', signature = SigNull\<rparr>"

definition initializeBlockchain :: "env \<Rightarrow> nat \<Rightarrow> node \<Rightarrow> node" where
  "initializeBlockchain c now s =
     updateLeader now
       (if length (blockchain s) = 0 then s\<lparr>blockchain := blockchain s @ [createGenesisBlock c now]\<rparr>
        else s)"

definition constructor :: "env \<Rightarrow> string \<Rightarrow> nat \<Rightarrow> node" where
  "constructor c nid now =
     initializeBlockchain c now
       \<lparr>nodeId = nid, blockchain = [], mempool = [], whitelistedPeers = [],
        currentLeader = None, isLeader = False, blockTimer = False, consensusState = Idle,
        pendingBlock = None, votes = [], minVotes = 1\<rparr>"

text \<open>
  Everything that changes a \<open>BlockchainManager\<close> after construction: its public methods,
  its message handlers and its timers.
\<close>

datatype op =
    AddWhitelistedPeer string
  | RemoveWhitelistedPeer string
  | UpdateLeader nat
  | HandleLeaderAnnouncement string nat
  | SubmitTransaction transaction
  | HandleTransaction transaction
  | ProposeBlock nat
  | BlockTimerFire nat
  | VoteTimeoutFire
  | HandleBlockProposal nat string block
  | HandleBlockVote string vote
  | FinalizeBlock
  | AddBlock block
  | HandleSyncResponse "block list"
  | HandlePeerDisconnected nat string

fun step :: "env \<Rightarrow> op \<Rightarrow> node \<Rightarrow> node" where
  "step c (AddWhitelistedPeer p) s = addWhitelistedPeer p s"
| "step c (RemoveWhitelistedPeer p) s = removeWhitelistedPeer p s"
| "step c (UpdateLeader now) s = updateLeader now s"
| "step c (HandleLeaderAnnouncement l h) s = handleLeaderAnnouncement l h s"
| "step c (SubmitTransaction t) s = snd (submitTransaction c t s)"
| "step c (HandleTransaction t) s = handleTransaction c t s"
| "step c (ProposeBlock now) s = proposeBlock c now s"
| "step c (BlockTimerFire now) s = blockTimerFire c now s"
| "step c VoteTimeoutFire s = voteTimeoutFire c s"
| "step c (HandleBlockProposal now p b) s = handleBlockProposal c now p b s"
| "step c (HandleBlockVote p v) s = handleBlockVote p v s"
| "step c FinalizeBlock s = finalizeBlock c s"
| "step c (AddBlock b) s = snd (addBlock c b s)"
| "step c (HandleSyncResponse bs) s = handleSyncResponse c bs s"
| "step c (HandlePeerDisconnected now p) s = handlePeerDisconnected now p s"

inductive reachable :: "env \<Rightarrow> string \<Rightarrow> nat \<Rightarrow> node \<Rightarrow> bool" for c nid t0 where
  reachable_init: "reachable c nid t0 (constructor c nid t0)"
| reachable_step: "reachable c nid t0 s \<Longrightarrow> reachable c nid t0 (step c ev s)"

section \<open>File catalogue and transfers (fileTransfer.js)\<close>

record fileInfo =
  fi_id :: string
  fi_name :: string
  fi_size :: nat
  fi_type :: string
  fi_hash :: string
  fi_peerId :: string
  availableAt :: nat

text \<open>The fields of a \<open>file-offer\<close>, a \<open>file-metadata\<close> and a \<open>file-chunk\<close> message.\<close>

record fileOffer =
  o_fileId :: string
  o_fileName :: string
  o_fileSize :: nat
  o_fileType :: string
  o_fileHash :: string

record fileMetadata =
  m_fileId :: string
  m_fileName :: string
  m_fileSize :: nat
  m_fileType :: string
  m_totalChunks :: nat
  m_chunkSize :: nat

record fileChunk =
  c_fileId :: string
  c_chunkIndex :: nat
  c_chunkData :: string
  c_isLastChunk :: bool

record progress =
  received :: nat
  total :: nat

text \<open>A received chunk is an \<open>ArrayBuffer\<close>: its bytes, as a string of characters.\<close>

record downloadInfo =
  d_fileId :: string
  d_fileName :: string
  d_fileSize :: nat
  d_fileType :: string
  d_totalChunks :: nat
  d_chunkSize :: nat
  receivedChunks :: "(nat, string) jsmap"
  d_peerId :: string

text \<open>
  The fields of \<open>FileTransferManager\<close> that downloads use. \<open>activeDownloads\<close> is
  \<open>undefined\<close> (\<open>None\<close>) until the first \<open>file-metadata\<close> creates the map.
\<close>

record ftm =
  availableFiles :: "(string, fileInfo) jsmap"
  downloadProgress :: "(string, progress) jsmap"
  activeTransfers :: "string list"
  activeDownloads :: "(string, downloadInfo) jsmap option"

text \<open>The events a handler emits, in order. A completed download carries the assembled bytes.\<close>

datatype ft_event =
    FileAvailable fileInfo
  | FileUnavailable fileInfo
  | DownloadStarted string
  | DownloadMetadata downloadInfo
  | DownloadProgress string nat nat
  | DownloadCompleted string string
  | DownloadFailed string
  | DownloadCancelled string

definition maxConcurrentTransfers :: nat where
  "maxConcurrentTransfers = 3"

definition ftm_init :: ftm where
  "ftm_init = \<lparr>availableFiles = [], downloadProgress = [], activeTransfers = [],
               activeDownloads = None\<rparr>"

definition handleFileOffer :: "nat \<Rightarrow> string \<Rightarrow> fileOffer \<Rightarrow> ftm \<Rightarrow> ftm \<times> ft_event list" where
  "handleFileOffer now peerId off s =
     (if Map_has (availableFiles s) (o_fileId off) then (s, [])
      else
        let fi = \<lparr>fi_id = o_fileId off, fi_name = o_fileName off, fi_size = o_fileSize off,
                  fi_type = o_fileType off, fi_hash = o_fileHash off, fi_peerId = peerId,
                  availableAt = now\<rparr>
        in (s\<lparr>availableFiles := Map_set (availableFiles s) (o_fileId off) fi\<rparr>,
            [FileAvailable fi]))"

text \<open>
  \<open>requestFile\<close>; \<open>sendOk\<close> is what \<open>networkManager.sendToPeer\<close> returns for the request.
  A \<open>throw\<close> is the \<open>Inl\<close> result.
\<close>

definition requestFile :: "bool \<Rightarrow> string \<Rightarrow> ftm \<Rightarrow> (error + string) \<times> ftm \<times> ft_event list" where
  "requestFile sendOk fid s =
     (case Map_get (availableFiles s) fid of
        None \<Rightarrow> (Inl FileNotFound, s, [])
      | Some fi \<Rightarrow>
         (if length (activeTransfers s) \<ge> maxConcurrentTransfers then (Inl TooManyTransfers, s, [])
          else
            let s1 = s\<lparr>activeTransfers := Set_add (activeTransfers s) fid,
                       downloadProgress := Map_set (downloadProgress s) fid
                                             \<lparr>received = 0, total = fi_size fi\<rparr>\<rparr>
            in if \<not> sendOk
               then (Inl SendFailed,
                     s1\<lparr>activeTransfers := Set_delete (activeTransfers s1) fid,
                        downloadProgress := Map_delete (downloadProgress s1) fid\<rparr>, [])
               else (Inr fid, s1, [DownloadStarted fid])))"

definition handleFileMetadata :: "string \<Rightarrow> fileMetadata \<Rightarrow> ftm \<Rightarrow> ftm \<times> ft_event list" where
  "handleFileMetadata peerId m s =
     (let di = \<lparr>d_fileId = m_fileId m, d_fileName = m_fileName m, d_fileSize = m_fileSize m,
                d_fileType = m_fileType m, d_totalChunks = m_totalChunks m,
                d_chunkSize = m_chunkSize m, receivedChunks = [], d_peerId = peerId\<rparr>;
          ad = (case activeDownloads s of None \<Rightarrow> [] | Some a \<Rightarrow> a)
      in (s\<lparr>activeDownloads := Some (Map_set ad (m_fileId m) di)\<rparr>, [DownloadMetadata di]))"

text \<open>\<open>this.activeDownloads?.get(fileId)\<close> and \<open>this.activeDownloads?.delete(fileId)\<close>.\<close>

definition activeDownloads_get :: "ftm \<Rightarrow> string \<Rightarrow> downloadInfo option" where
  "activeDownloads_get s fid = (case activeDownloads s of None \<Rightarrow> None | Some a \<Rightarrow> Map_get a fid)"

definition activeDownloads_delete :: "ftm \<Rightarrow> string \<Rightarrow> (string, downloadInfo) jsmap option" where
  "activeDownloads_delete s fid =
     (case activeDownloads s of None \<Rightarrow> None | Some a \<Rightarrow> Some (Map_delete a fid))"

text \<open>
  \<open>assembleFile\<close>: the chunks \<open>0 .. totalChunks - 1\<close> in index order; a missing index throws
  and the \<open>catch\<close> emits \<open>download-failed\<close>, leaving the transfer where it is. Nothing in
  the function reads a hash.
\<close>

definition assembleFile :: "downloadInfo \<Rightarrow> ftm \<Rightarrow> ftm \<times> ft_event list" where
  "assembleFile di s =
     (case those (map (Map_get (receivedChunks di)) [0..<d_totalChunks di]) of
        None \<Rightarrow> (s, [DownloadFailed (d_fileId di)])
      | Some chunks \<Rightarrow>
         (s\<lparr>activeDownloads := activeDownloads_delete s (d_fileId di),
            activeTransfers := Set_delete (activeTransfers s) (d_fileId di),
            downloadProgress := Map_delete (downloadProgress s) (d_fileId di)\<rparr>,
          [DownloadCompleted (d_fileId di) (concat chunks)]))"

text \<open>
  \<open>handleFileChunk\<close>; \<open>atob\<close> decodes base64 and throws (\<open>None\<close>) on a string that is not
  base64. The download record and the progress record are objects held by the maps, so the
  updates are updates of the maps.
\<close>

definition handleFileChunk :: "(string \<Rightarrow> string option) \<Rightarrow> string \<Rightarrow> fileChunk \<Rightarrow> ftm \<Rightarrow> ftm \<times> ft_event list" where
  "handleFileChunk atob peerId ch s =
     (case activeDownloads_get s (c_fileId ch) of
        None \<Rightarrow> (s, [])
      | Some di \<Rightarrow>
         (case atob (c_chunkData ch) of
            None \<Rightarrow> (s, [DownloadFailed (c_fileId ch)])
          | Some chunkBuffer \<Rightarrow>
             (let di1 = di\<lparr>receivedChunks := Map_set (receivedChunks di) (c_chunkIndex ch) chunkBuffer\<rparr>;
                  s1 = s\<lparr>activeDownloads :=
                          Some (Map_set (case activeDownloads s of None \<Rightarrow> [] | Some a \<Rightarrow> a)
                                        (c_fileId ch) di1)\<rparr>;
                  (s2, ev) = (case Map_get (downloadProgress s1) (c_fileId ch) of
                                None \<Rightarrow> (s1, [])
                              | Some p \<Rightarrow>
                                 (let p1 = p\<lparr>received := received p + length chunkBuffer\<rparr>
                                  in (s1\<lparr>downloadProgress :=
                                           Map_set (downloadProgress s1) (c_fileId ch) p1\<rparr>,
                                      [DownloadProgress (c_fileId ch) (received p1) (total p1)])))
              in if length (receivedChunks di1) = d_totalChunks di1
                 then (let (s3, ev3) = assembleFile di1 s2 in (s3, ev @ ev3))
                 else (s2, ev))))"

definition ft_handlePeerDisconnected :: "string \<Rightarrow> ftm \<Rightarrow> ftm \<times> ft_event list" where
  "ft_handlePeerDisconnected peerId s =
     (let filesToRemove = filter (\<lambda>e. fi_peerId (snd e) = peerId) (availableFiles s)
      in (s\<lparr>availableFiles := filter (\<lambda>e. fi_peerId (snd e) \<noteq> peerId) (availableFiles s)\<rparr>,
          map (\<lambda>e. FileUnavailable (snd e)) filesToRemove))"

definition cancelDownload :: "string \<Rightarrow> ftm \<Rightarrow> ftm \<times> ft_event list" where
  "cancelDownload fid s =
     (case activeDownloads_get s fid of
        None \<Rightarrow> (s, [])
      | Some di \<Rightarrow>
         (s\<lparr>activeDownloads := activeDownloads_delete s fid,
            activeTransfers := Set_delete (activeTransfers s) fid,
            downloadProgress := Map_delete (downloadProgress s) fid\<rparr>,
          [DownloadCancelled fid]))"

text \<open>The calls and messages that change the download side of a \<open>FileTransferManager\<close>.\<close>

datatype ft_op =
    HandleFileOffer nat string fileOffer
  | RequestFile bool string
  | HandleFileMetadata string fileMetadata
  | HandleFileChunk string fileChunk
  | FtPeerDisconnected string
  | CancelDownload string

fun ft_step :: "(string \<Rightarrow> string option) \<Rightarrow> ft_op \<Rightarrow> ftm \<Rightarrow> ftm" where
  "ft_step atob (HandleFileOffer now p off) s = fst (handleFileOffer now p off s)"
| "ft_step atob (RequestFile sendOk fid) s = fst (snd (requestFile sendOk fid s))"
| "ft_step atob (HandleFileMetadata p m) s = fst (handleFileMetadata p m s)"
| "ft_step atob (HandleFileChunk p ch) s = fst (handleFileChunk atob p ch s)"
| "ft_step atob (FtPeerDisconnected p) s = fst (ft_handlePeerDisconnected p s)"
| "ft_step atob (CancelDownload fid) s = fst (cancelDownload fid s)"


section \<open>A concrete environment\<close>

text \<open>
  An environment to run the definitions in: a plain serialiser, a hash that wraps its
  argument (so different strings have different hashes), and a verifier under which no
  signature verifies.
\<close>

fun show_nat :: "nat \<Rightarrow> string" where
  "show_nat n = (if n < 10 then [''0123456789'' ! n]
                 else show_nat (n div 10) @ [''0123456789'' ! (n mod 10)])"

declare show_nat.simps [simp del]

definition show_int :: "int \<Rightarrow> string" where
  "show_int i = (if i < 0 then CHR ''-'' # show_nat (nat (- i)) else show_nat (nat i))"

primrec show_json :: "json \<Rightarrow> string" where
  "show_json JNull = ''null''"
| "show_json (JNum i) = show_int i"
| "show_json (JStr s) = CHR 0x22 # s @ [CHR 0x22]"
| "show_json (JArr js) = ''['' @ concat (map (\<lambda>j. show_json j @ '','') js) @ '']''"
| "show_json (JObj fs) =
     ''{'' @ concat (map (\<lambda>f. fst f @ '':'' @ snd f @ '','') (map (map_prod id show_json) fs)) @ ''}''"

definition demo :: env where
  "demo = \<lparr>stringify = show_json, calculateHash = (\<lambda>s. ''h('' @ s @ '')''),
           subtleVerify = (\<lambda>k sg d. False)\<rparr>"

text \<open>
  The block a node would build on top of the chain of \<open>s\<close>: the fields and the hash as in
  \<open>proposeBlock\<close>, with a given author, time, transactions and signature.
\<close>

definition next_block :: "env \<Rightarrow> node \<Rightarrow> string \<Rightarrow> nat \<Rightarrow> transaction list \<Rightarrow> sigval \<Rightarrow> block" where
  "next_block c s a now ts sg =
     (let b0 = \<lparr>index = length (blockchain s), timestamp = now, transactions = ts,
                previousHash = hash (last (blockchain s)), hash = [], nonce = 0, author = a,
                signature = SigNull\<rparr>
      in b0\<lparr>hash := calculateBlockHash c b0, signature := sg\<rparr>)"

definition demo_s0 :: node where
  "demo_s0 = constructor demo ''N'' 1000"

definition demo_tx :: transaction where
  "demo_tx = \<lparr>tx_id = ''t1'', tx_from = ''M'', tx_to = ''N'', tx_data = ''a'', tx_amount = 5,
              tx_timestamp = 1500, tx_signature = SigStr ''forged''\<rparr>"

definition demo_forged :: block where
  "demo_forged = next_block demo demo_s0 ''M'' 2000 [demo_tx] (SigStr ''forged'')"

text \<open>
  The linkage of a chain: every block after the first carries its position as index and the
  hash of its predecessor.
\<close>

definition chain_linked :: "block list \<Rightarrow> bool" where
  "chain_linked ch =
     (\<forall>i < length ch. 0 < i \<longrightarrow> previousHash (ch ! i) = hash (ch ! (i - 1)) \<and> index (ch ! i) = i)"

text \<open>The push of a validated block, with the purge of its transactions from the mempool.\<close>

definition push_block :: "block \<Rightarrow> node \<Rightarrow> node" where
  "push_block b s = s\<lparr>blockchain := blockchain s @ [b],
                      mempool := remove_confirmed (transactions b) (mempool s)\<rparr>"


definition demo_good :: block where
  "demo_good = next_block demo demo_s0 ''M'' 35000 [] SigNull"

definition demo_bad :: block where
  "demo_bad = demo_good\<lparr>hash := ''bogus''\<rparr>"

definition demo_s1 :: node where
  "demo_s1 = step demo (AddWhitelistedPeer ''N'') demo_s0"

definition demo_s2 :: node where
  "demo_s2 = step demo (UpdateLeader 30000) demo_s1"

definition demo_s3 :: node where
  "demo_s3 = step demo (BlockTimerFire 40000) demo_s2"

definition demo_s4 :: node where
  "demo_s4 = step demo (HandleSyncResponse [demo_good]) demo_s3"

definition demo_pending :: block where
  "demo_pending = next_block demo demo_s0 ''N'' 40000 [] SigPromise"

definition demo_vote :: vote where
  "demo_vote = \<lparr>blockHash = hash demo_pending, voter = ''N'', approve = True, vote_timestamp = 40000\<rparr>"

text \<open>A pending block has a vote table: the proposer votes for its own block.\<close>

definition pending_voted :: "node \<Rightarrow> bool" where
  "pending_voted s =
     (case pendingBlock s of None \<Rightarrow> True | Some pb \<Rightarrow> Map_get (votes s) (hash pb) \<noteq> None)"

text \<open>Concrete messages and transfer states; \<open>demo_atob\<close> rejects a string with a character outside base64.\<close>

definition demo_atob :: "string \<Rightarrow> string option" where
  "demo_atob s = (if CHR ''!'' \<in> set s then None else Some s)"

definition demo_offer :: "string \<Rightarrow> string \<Rightarrow> fileOffer" where
  "demo_offer fid h = \<lparr>o_fileId = fid, o_fileName = ''a.txt'', o_fileSize = 4,
                        o_fileType = ''text/plain'', o_fileHash = h\<rparr>"

definition demo_meta :: "nat \<Rightarrow> fileMetadata" where
  "demo_meta n = \<lparr>m_fileId = ''f1'', m_fileName = ''a.txt'', m_fileSize = 4,
                  m_fileType = ''text/plain'', m_totalChunks = n, m_chunkSize = 65536\<rparr>"

definition demo_chunk :: "nat \<Rightarrow> string \<Rightarrow> bool \<Rightarrow> fileChunk" where
  "demo_chunk i d l = \<lparr>c_fileId = ''f1'', c_chunkIndex = i, c_chunkData = d, c_isLastChunk = l\<rparr>"

text \<open>An offer of \<open>f1\<close> with hash \<open>h\<close> from peer \<open>A\<close>, requested, and announced as \<open>n\<close> chunks.\<close>

definition demo_ft :: "string \<Rightarrow> nat \<Rightarrow> ftm" where
  "demo_ft h n =
     ft_step demo_atob (HandleFileMetadata ''A'' (demo_meta n))
       (ft_step demo_atob (RequestFile True ''f1'')
         (ft_step demo_atob (HandleFileOffer 10 ''A'' (demo_offer ''f1'' h)) ftm_init))"

definition demo_ft_half :: ftm where
  "demo_ft_half = ft_step demo_atob (HandleFileChunk ''A'' (demo_chunk 0 ''ab'' False)) (demo_ft ''H'' 2)"


text \<open>The cap on the set of active transfers.\<close>

definition cap_inv :: "ftm \<Rightarrow> bool" where
  "cap_inv s = (length (activeTransfers s) \<le> maxConcurrentTransfers \<and> distinct (activeTransfers s))"




section \<open>Properties\<close>

subsection \<open>What validation decides\<close>

lemma validate_transactions_iff:
  "validate_transactions c ts \<longleftrightarrow>
     (\<forall>t \<in> set ts. tx_id t \<noteq> [] \<and> tx_from t \<noteq> [] \<and> tx_timestamp t \<noteq> 0)"
  by (induction ts) (auto simp: validateTransaction_def)

lemma validateBlock_iff:
  "validateBlock c s b \<longleftrightarrow>
     index b \<noteq> 0 \<and> timestamp b \<noteq> 0 \<and> hash b \<noteq> [] \<and> previousHash b \<noteq> []
     \<and> index b = length (blockchain s) \<and> blockchain s \<noteq> []
     \<and> previousHash b = hash (last (blockchain s))
     \<and> hash b = calculateBlockHash c b
     \<and> (\<forall>t \<in> set (transactions b). tx_id t \<noteq> [] \<and> tx_from t \<noteq> [] \<and> tx_timestamp t \<noteq> 0)"
  unfolding validateBlock_def validate_transactions_iff
  by (cases "blockchain s") auto

lemma next_block_hash:
  "hash (next_block c s a now ts sg) = calculateBlockHash c (next_block c s a now ts sg)"
  by (simp add: next_block_def Let_def calculateBlockHash_def)

lemma demo_s0_chain: "blockchain demo_s0 = [createGenesisBlock demo 1000]"
  by (simp add: demo_s0_def constructor_def initializeBlockchain_def updateLeader_def)

text \<open>
  Claim C2. Block validation should accept a block exactly when its fields are present, it
  extends the tip, its hash is the recomputed one, its signature (if any) verifies against the
  author and every transaction validates. The code calls the verifier without waiting for
  its result: in the environment \<open>demo\<close> no signature verifies, the block \<open>demo_forged\<close>
  and its transaction carry the signature \<open>forged\<close>, and the block is accepted.
\<close>

theorem forged_block_accepted:
  "verifySignature demo (hash demo_forged) (signature demo_forged) (author demo_forged) = Promise False
   \<and> validateTransaction demo demo_tx = VPromise (Promise False)
   \<and> validateBlock demo demo_s0 demo_forged"
  apply (intro conjI)
    apply (simp add: verifySignature_def demo_forged_def next_block_def demo_def)
   apply (simp add: validateTransaction_def verifySignature_def demo_tx_def demo_def)
  apply (simp add: validateBlock_iff demo_forged_def next_block_hash demo_s0_chain)
  apply (simp add: next_block_def demo_s0_chain createGenesisBlock_def demo_tx_def demo_def
      calculateBlockHash_def)
  done

text \<open>
  Claim C10. The outcome of transaction validation and of the signature check of a block does
  not depend on whether the signature verifies. For a transaction with \<open>id\<close>, \<open>from\<close> and
  \<open>timestamp\<close> present, any two non-empty signatures both give the verifier's promise, which
  the callers read as true, whatever the verifier would answer; a signed block is accepted
  exactly when the same block without a signature is, under any verifier.
\<close>

theorem signature_not_decisive:
  assumes "tx_id t \<noteq> []" and "tx_from t \<noteq> []" and "tx_timestamp t \<noteq> 0"
    and "sg \<noteq> []" and "sg' \<noteq> []"
  shows "(\<exists>p p'. validateTransaction c (t\<lparr>tx_signature := SigStr sg\<rparr>) = VPromise p
              \<and> validateTransaction c (t\<lparr>tx_signature := SigStr sg'\<rparr>) = VPromise p')
       \<and> truthy (validateTransaction c (t\<lparr>tx_signature := SigStr sg\<rparr>))
           = truthy (validateTransaction c (t\<lparr>tx_signature := SigStr sg'\<rparr>))
       \<and> truthy (validateTransaction (c\<lparr>subtleVerify := v\<rparr>) (t\<lparr>tx_signature := SigStr sg\<rparr>))
           = truthy (validateTransaction c (t\<lparr>tx_signature := SigStr sg\<rparr>))
       \<and> validateBlock c s (b\<lparr>signature := SigStr sg\<rparr>) = validateBlock c s (b\<lparr>signature := SigNull\<rparr>)
       \<and> validateBlock (c\<lparr>subtleVerify := v\<rparr>) s (b\<lparr>signature := SigStr sg\<rparr>)
           = validateBlock c s (b\<lparr>signature := SigStr sg\<rparr>)"
  using assms
  by (simp add: validateTransaction_def validateBlock_iff calculateBlockHash_def)

theorem signature_not_decisive_witness:
  "truthy (validateTransaction demo (demo_tx\<lparr>tx_signature := SigStr ''aa''\<rparr>))
     = truthy (validateTransaction demo (demo_tx\<lparr>tx_signature := SigStr ''bb''\<rparr>))
   \<and> validateBlock demo demo_s0 (demo_forged\<lparr>signature := SigStr ''aa''\<rparr>)
     = validateBlock demo demo_s0 (demo_forged\<lparr>signature := SigNull\<rparr>)"
proof -
  have h: "tx_id demo_tx \<noteq> []" "tx_from demo_tx \<noteq> []" "tx_timestamp demo_tx \<noteq> 0"
    "''aa'' \<noteq> []" "''bb'' \<noteq> []"
    by (simp_all add: demo_tx_def)
  from signature_not_decisive [where t = demo_tx and sg = "''aa''" and sg' = "''bb''"
      and c = demo and s = demo_s0 and b = demo_forged, OF h]
  show ?thesis by blast
qed

lemma ceil_half_eq: "ceil_half n = nat \<lceil>real n / 2\<rceil>"
  unfolding ceil_half_def by linarith


subsection \<open>The chain is only appended to\<close>

lemma updateLeader_fields [simp]:
  "blockchain (updateLeader t s) = blockchain s"
  "pendingBlock (updateLeader t s) = pendingBlock s"
  "votes (updateLeader t s) = votes s"
  "minVotes (updateLeader t s) = minVotes s"
  by (simp_all add: updateLeader_def Let_def startBlockProduction_def stopBlockProduction_def)

lemma recordVote_fields [simp]:
  "blockchain (recordVote v s) = blockchain s"
  "pendingBlock (recordVote v s) = pendingBlock s"
  "minVotes (recordVote v s) = minVotes s"
  by (simp_all add: recordVote_def Let_def)

lemma proposeBlock_fields [simp]:
  "blockchain (proposeBlock c t s) = blockchain s"
  "minVotes (proposeBlock c t s) = minVotes s"
  by (simp_all add: proposeBlock_def Let_def voteForBlock_def split: list.splits)

lemma addBlock_chain:
  "blockchain (snd (addBlock c b s)) = (if validateBlock c s b then blockchain s @ [b] else blockchain s)"
  by (simp add: addBlock_def)

lemma addBlock_fields [simp]:
  "pendingBlock (snd (addBlock c b s)) = pendingBlock s"
  "votes (snd (addBlock c b s)) = votes s"
  "minVotes (snd (addBlock c b s)) = minVotes s"
  "consensusState (snd (addBlock c b s)) = consensusState s"
  by (simp_all add: addBlock_def)

lemma finalizeBlock_minVotes [simp]: "minVotes (finalizeBlock c s) = minVotes s"
  by (simp add: finalizeBlock_def Let_def split: option.splits)

lemma handleSyncResponse_fields [simp]:
  "pendingBlock (handleSyncResponse c bs s) = pendingBlock s"
  "votes (handleSyncResponse c bs s) = votes s"
  "minVotes (handleSyncResponse c bs s) = minVotes s"
  by (induction bs arbitrary: s) simp_all

lemma linked_snoc:
  assumes "chain_linked ch" and "ch \<noteq> []" and "index b = length ch" and "previousHash b = hash (last ch)"
  shows "chain_linked (ch @ [b])"
  unfolding chain_linked_def
proof (intro allI impI)
  fix i assume i: "i < length (ch @ [b])" "0 < i"
  show "previousHash ((ch @ [b]) ! i) = hash ((ch @ [b]) ! (i - 1)) \<and> index ((ch @ [b]) ! i) = i"
  proof (cases "i < length ch")
    case True
    then have "i - 1 < length ch" by simp
    with True i assms(1) show ?thesis by (simp add: chain_linked_def nth_append)
  next
    case False
    with i have "i = length ch" by simp
    with assms(2-4) i show ?thesis by (simp add: nth_append last_conv_nth)
  qed
qed

lemma valid_push_linked:
  "chain_linked (blockchain s) \<Longrightarrow> validateBlock c s b \<Longrightarrow> chain_linked (blockchain s @ [b])"
  by (rule linked_snoc) (simp_all add: validateBlock_iff)

lemma sync_chain:
  "\<exists>ys. blockchain (handleSyncResponse c bs s) = blockchain s @ ys
        \<and> (chain_linked (blockchain s) \<longrightarrow> chain_linked (blockchain s @ ys))"
proof (induction bs arbitrary: s)
  case Nil
  show ?case by simp
next
  case (Cons b bs)
  show ?case
  proof (cases "validateBlock c s b")
    case True
    let ?s1 = "s\<lparr>blockchain := blockchain s @ [b], mempool := remove_confirmed (transactions b) (mempool s)\<rparr>"
    from Cons.IH [of ?s1] obtain ys where
      ys: "blockchain (handleSyncResponse c bs ?s1) = (blockchain s @ [b]) @ ys"
        "chain_linked (blockchain s @ [b]) \<longrightarrow> chain_linked ((blockchain s @ [b]) @ ys)"
      by auto
    from True ys valid_push_linked [of s c b] show ?thesis
      by (intro exI [of _ "b # ys"]) simp
  next
    case False
    with Cons.IH [of s] show ?thesis by simp
  qed
qed

lemma step_chain:
  "\<exists>ys. blockchain (step c ev s) = blockchain s @ ys
        \<and> (chain_linked (blockchain s) \<longrightarrow> chain_linked (blockchain s @ ys))"
proof (cases ev)
  case (HandleSyncResponse bs)
  then show ?thesis using sync_chain [of c bs s] by simp
next
  case (AddBlock b)
  then show ?thesis using valid_push_linked [of s c b]
    by (cases "validateBlock c s b") (simp_all add: addBlock_chain)
next
  case FinalizeBlock
  then show ?thesis using valid_push_linked [of s c]
    by (auto simp: finalizeBlock_def Let_def addBlock_chain split: option.splits)
next
  case VoteTimeoutFire
  then show ?thesis using valid_push_linked [of s c]
    by (auto simp: voteTimeoutFire_def finalizeBlock_def Let_def addBlock_chain split: option.splits)
qed (simp_all add: addWhitelistedPeer_def removeWhitelistedPeer_def handleLeaderAnnouncement_def
      submitTransaction_def handleTransaction_def blockTimerFire_def handleBlockProposal_def
      voteForBlock_def handleBlockVote_def handlePeerDisconnected_def)

lemma constructor_chain: "blockchain (constructor c nid t0) = [createGenesisBlock c t0]"
  by (simp add: constructor_def initializeBlockchain_def)

lemma reachable_chain:
  "reachable c nid t0 s \<Longrightarrow>
     \<exists>ys. blockchain s = createGenesisBlock c t0 # ys \<and> chain_linked (blockchain s)"
proof (induction rule: reachable.induct)
  case reachable_init
  show ?case by (simp add: constructor_chain chain_linked_def)
next
  case (reachable_step s ev)
  then obtain ys where ys: "blockchain s = createGenesisBlock c t0 # ys" "chain_linked (blockchain s)"
    by blast
  from step_chain [of c ev s] obtain zs where
    zs: "blockchain (step c ev s) = blockchain s @ zs"
      "chain_linked (blockchain s) \<longrightarrow> chain_linked (blockchain s @ zs)" by blast
  with ys show ?case by simp
qed

text \<open>
  Claim C4. In every reachable state, each block after the first has its position as index
  and the hash of its predecessor as previous hash, the first block is the genesis block, and
  no operation removes or replaces a block: the chain before a step is a prefix of the chain
  after it.
\<close>

theorem chain_linked_append_only:
  assumes "reachable c nid t0 s"
  shows "(\<forall>i. 0 < i \<and> i < length (blockchain s) \<longrightarrow>
            previousHash (blockchain s ! i) = hash (blockchain s ! (i - 1))
            \<and> index (blockchain s ! i) = i)
       \<and> blockchain s \<noteq> [] \<and> blockchain s ! 0 = createGenesisBlock c t0
       \<and> (\<forall>ev. length (blockchain s) \<le> length (blockchain (step c ev s))
               \<and> take (length (blockchain s)) (blockchain (step c ev s)) = blockchain s)"
proof -
  from reachable_chain [OF assms] obtain ys where
    ys: "blockchain s = createGenesisBlock c t0 # ys" "chain_linked (blockchain s)" by blast
  have "length (blockchain s) \<le> length (blockchain (step c ev s))
        \<and> take (length (blockchain s)) (blockchain (step c ev s)) = blockchain s" for ev
    using step_chain [of c ev s] by auto
  with ys show ?thesis by (auto simp: chain_linked_def)
qed

subsection \<open>Evaluation of the concrete states\<close>

lemma demo_s0_eval:
  "demo_s0 = \<lparr>nodeId = ''N'', blockchain = [createGenesisBlock demo 1000], mempool = [],
       whitelistedPeers = [], currentLeader = None, isLeader = False, blockTimer = False,
       consensusState = Idle, pendingBlock = None, votes = [], minVotes = 1\<rparr>"
  by (simp add: demo_s0_def constructor_def initializeBlockchain_def updateLeader_def)


lemma demo_good_valid: "validateBlock demo demo_s0 demo_good"
  apply (simp add: validateBlock_iff demo_good_def next_block_hash demo_s0_chain)
  apply (simp add: next_block_def demo_s0_chain createGenesisBlock_def demo_def calculateBlockHash_def)
  done

theorem chain_linked_append_only_witness:
  "reachable demo ''N'' 1000 (step demo (AddBlock demo_good) demo_s0)
   \<and> length (blockchain (step demo (AddBlock demo_good) demo_s0)) = 2
   \<and> previousHash (blockchain (step demo (AddBlock demo_good) demo_s0) ! 1)
       = hash (blockchain (step demo (AddBlock demo_good) demo_s0) ! 0)
   \<and> index (blockchain (step demo (AddBlock demo_good) demo_s0) ! 1) = 1
   \<and> blockchain (step demo (AddBlock demo_good) demo_s0) ! 0 = createGenesisBlock demo 1000"
proof -
  have r: "reachable demo ''N'' 1000 (step demo (AddBlock demo_good) demo_s0)"
    unfolding demo_s0_def by (intro reachable_step reachable_init)
  have l: "length (blockchain (step demo (AddBlock demo_good) demo_s0)) = 2"
    by (simp add: addBlock_chain demo_good_valid demo_s0_chain)
  note t = chain_linked_append_only [OF r]
  from t have "0 < (1::nat) \<and> 1 < length (blockchain (step demo (AddBlock demo_good) demo_s0)) \<longrightarrow>
      previousHash (blockchain (step demo (AddBlock demo_good) demo_s0) ! 1)
        = hash (blockchain (step demo (AddBlock demo_good) demo_s0) ! (1 - 1))
      \<and> index (blockchain (step demo (AddBlock demo_good) demo_s0) ! 1) = 1"
    by blast
  with t r l show ?thesis by simp
qed


subsection \<open>Finalisation of a proposal\<close>

lemma Map_get_set: "Map_get (Map_set m k v) k' = (if k' = k then Some v else Map_get m k')"
  by (induction m) (auto simp: Map_get_def)

lemma recordVote_votes:
  "Map_get (votes (recordVote v s)) h \<noteq> None \<longleftrightarrow> h = blockHash v \<or> Map_get (votes s) h \<noteq> None"
  by (simp add: recordVote_def Let_def Map_get_set)

lemma proposeBlock_pending_voted:
  "pending_voted s \<Longrightarrow> pending_voted (proposeBlock c t s)"
  by (auto simp: pending_voted_def proposeBlock_def Let_def voteForBlock_def recordVote_def
      Map_get_def split: option.splits list.splits)

lemma finalizeBlock_pending_voted:
  "pending_voted s \<Longrightarrow> pending_voted (finalizeBlock c s)"
  by (auto simp: pending_voted_def finalizeBlock_def Let_def split: option.splits)

lemma recordVote_keeps:
  "Map_get (votes s) h = Some y \<Longrightarrow> \<exists>y'. Map_get (votes (recordVote v s)) h = Some y'"
  by (simp add: recordVote_def Let_def Map_get_set)

lemma recordVote_pending_voted:
  "pending_voted s \<Longrightarrow> pending_voted (recordVote v s)"
  by (auto simp: pending_voted_def dest: recordVote_keeps split: option.splits)

lemma step_pending_voted:
  assumes "pending_voted s"
  shows "pending_voted (step c ev s)"
proof (cases ev)
  case (ProposeBlock t)
  with assms show ?thesis by (simp add: proposeBlock_pending_voted)
next
  case (BlockTimerFire t)
  with assms show ?thesis by (simp add: blockTimerFire_def proposeBlock_pending_voted)
next
  case FinalizeBlock
  with assms show ?thesis by (simp add: finalizeBlock_pending_voted)
next
  case VoteTimeoutFire
  with assms show ?thesis by (simp add: voteTimeoutFire_def finalizeBlock_pending_voted)
next
  case (HandleBlockProposal t p b)
  with assms show ?thesis
    by (simp add: handleBlockProposal_def voteForBlock_def recordVote_pending_voted)
next
  case (HandleBlockVote p v)
  with assms show ?thesis by (simp add: handleBlockVote_def recordVote_pending_voted)
next
  case (AddBlock b)
  with assms show ?thesis by (simp add: pending_voted_def split: option.splits)
next
  case (HandleSyncResponse bs)
  with assms show ?thesis by (simp add: pending_voted_def split: option.splits)
next
  case (UpdateLeader t)
  with assms show ?thesis by (simp add: pending_voted_def split: option.splits)
next
  case (HandlePeerDisconnected t p)
  with assms show ?thesis
    by (simp add: pending_voted_def handlePeerDisconnected_def split: option.splits)
qed (use assms in \<open>auto simp: pending_voted_def addWhitelistedPeer_def removeWhitelistedPeer_def
      handleLeaderAnnouncement_def submitTransaction_def handleTransaction_def
      split: option.splits\<close>)

lemma step_minVotes: "minVotes (step c ev s) = minVotes s"
  by (cases ev) (simp_all add: addWhitelistedPeer_def removeWhitelistedPeer_def
      handleLeaderAnnouncement_def submitTransaction_def handleTransaction_def blockTimerFire_def
      handleBlockProposal_def voteForBlock_def handleBlockVote_def handlePeerDisconnected_def
      voteTimeoutFire_def)

lemma reachable_votes:
  "reachable c nid t0 s \<Longrightarrow> pending_voted s \<and> minVotes s = 1"
proof (induction rule: reachable.induct)
  case reachable_init
  show ?case
    by (simp add: pending_voted_def constructor_def initializeBlockchain_def)
next
  case (reachable_step s ev)
  then show ?case by (simp add: step_pending_voted step_minVotes)
qed

text \<open>
  Claim C3, as amended. When \<open>finalizeBlock\<close> runs in a reachable state with a pending
  block, votes are recorded for its hash and, with \<open>A\<close> the approvals among them, the block is
  appended to the chain if and only if \<open>A \<ge> max(minVotes, ceil(|whitelist| / 2))\<close> and the block
  still validates against the current tip; otherwise the chain stays as it is. In both cases
  the pending block is cleared and the consensus state is idle. \<open>minVotes\<close> is 1.
\<close>

theorem finalizeBlock_commit:
  assumes "reachable c nid t0 s" and "pendingBlock s = Some pb"
  shows "\<exists>blockVotes. Map_get (votes s) (hash pb) = Some blockVotes
     \<and> (blockchain (finalizeBlock c s) = blockchain s @ [pb] \<longleftrightarrow>
          approveCount blockVotes \<ge> max (minVotes s) (nat \<lceil>real (length (whitelistedPeers s)) / 2\<rceil>)
          \<and> validateBlock c s pb)
     \<and> (blockchain (finalizeBlock c s) \<noteq> blockchain s @ [pb] \<longrightarrow>
          blockchain (finalizeBlock c s) = blockchain s)
     \<and> pendingBlock (finalizeBlock c s) = None
     \<and> consensusState (finalizeBlock c s) = Idle
     \<and> minVotes s = 1"
proof -
  from reachable_votes [OF assms(1)] assms(2) obtain blockVotes where
    bv: "Map_get (votes s) (hash pb) = Some blockVotes" and mv: "minVotes s = 1"
    by (auto simp: pending_voted_def)
  show ?thesis
    using assms(2) bv mv
    by (auto simp: finalizeBlock_def Let_def requiredVotes_def ceil_half_eq addBlock_chain)
qed

lemma validateBlock_chain:
  "blockchain s = blockchain s' \<Longrightarrow> validateBlock c s b = validateBlock c s' b"
  by (simp add: validateBlock_iff)

lemma demo_s2_eval:
  "demo_s2 = \<lparr>nodeId = ''N'', blockchain = [createGenesisBlock demo 1000], mempool = [],
       whitelistedPeers = [''N''], currentLeader = Some ''N'', isLeader = True, blockTimer = True,
       consensusState = Idle, pendingBlock = None, votes = [], minVotes = 1\<rparr>"
  by (simp add: demo_s2_def demo_s1_def demo_s0_eval addWhitelistedPeer_def Set_add_def
      updateLeader_def Let_def leaderRotationInterval_def startBlockProduction_def)

lemma demo_pending_eq:
  "demo_pending = \<lparr>index = 1, timestamp = 40000, transactions = [],
       previousHash = hash (createGenesisBlock demo 1000), hash = hash demo_pending, nonce = 0,
       author = ''N'', signature = SigPromise\<rparr>"
  by (simp add: demo_pending_def next_block_def demo_s0_chain)

lemma demo_s3_eval:
  "demo_s3 = \<lparr>nodeId = ''N'', blockchain = [createGenesisBlock demo 1000], mempool = [],
       whitelistedPeers = [''N''], currentLeader = Some ''N'', isLeader = True, blockTimer = True,
       consensusState = Proposing, pendingBlock = Some demo_pending,
       votes = [(hash demo_pending, [(''N'', demo_vote)])], minVotes = 1\<rparr>"
  unfolding demo_s3_def demo_s2_eval
  by (simp add: blockTimerFire_def proposeBlock_def Let_def voteForBlock_def recordVote_def
      Map_get_def Map_values_def demo_vote_def demo_pending_def next_block_def demo_s0_chain
      calculateBlockHash_def createGenesisBlock_def)

lemma demo_s3_reachable: "reachable demo ''N'' 1000 demo_s3"
  unfolding demo_s3_def demo_s2_def demo_s1_def demo_s0_def
  by (intro reachable_step reachable_init)

lemma demo_pending_valid: "validateBlock demo demo_s3 demo_pending"
  apply (simp add: validateBlock_iff demo_pending_def next_block_hash demo_s3_eval)
  apply (simp add: next_block_def demo_s0_chain createGenesisBlock_def demo_def calculateBlockHash_def)
  done

theorem finalizeBlock_commit_witness:
  "reachable demo ''N'' 1000 demo_s3 \<and> pendingBlock demo_s3 = Some demo_pending
   \<and> blockchain (finalizeBlock demo demo_s3) = blockchain demo_s3 @ [demo_pending]
   \<and> pendingBlock (finalizeBlock demo demo_s3) = None
   \<and> consensusState (finalizeBlock demo demo_s3) = Idle"
proof -
  have p: "pendingBlock demo_s3 = Some demo_pending" by (simp add: demo_s3_eval)
  have v: "Map_get (votes demo_s3) (hash demo_pending) = Some [(''N'', demo_vote)]"
    by (simp add: demo_s3_eval Map_get_def)
  have a: "approveCount [(''N'', demo_vote)] = 1"
    by (simp add: approveCount_def Map_values_def demo_vote_def)
  have q: "max (minVotes demo_s3) (nat \<lceil>real (length (whitelistedPeers demo_s3)) / 2\<rceil>) = 1"
    by (simp add: demo_s3_eval ceil_half_eq [symmetric] ceil_half_def)
  from finalizeBlock_commit [OF demo_s3_reachable p] v a q demo_pending_valid demo_s3_reachable p
  show ?thesis by auto
qed

lemma demo_s4_eval:
  "demo_s4 = demo_s3\<lparr>blockchain := [createGenesisBlock demo 1000, demo_good]\<rparr>"
proof -
  have "validateBlock demo demo_s3 demo_good"
    using demo_good_valid validateBlock_chain [of demo_s3 demo_s0 demo demo_good]
    by (simp add: demo_s3_eval demo_s0_chain)
  then show ?thesis
    by (simp add: demo_s4_def demo_s3_eval demo_good_def next_block_def remove_confirmed_def)
qed

text \<open>
  Claim C3 as stated (commit if and only if the approvals reach the quorum) fails in the
  reachable state \<open>demo_s4\<close>: the node proposed \<open>demo_pending\<close> at height 1 and voted for
  it, a sync response then appended \<open>demo_good\<close> at height 1, and at the end of the voting
  window the one approval meets the quorum of one, yet the pending block is not appended.
\<close>

theorem finalizeBlock_quorum_counterexample:
  "reachable demo ''N'' 1000 demo_s4
   \<and> pendingBlock demo_s4 = Some demo_pending
   \<and> Map_get (votes demo_s4) (hash demo_pending) = Some [(''N'', demo_vote)]
   \<and> approveCount [(''N'', demo_vote)] = 1
   \<and> max (minVotes demo_s4) (nat \<lceil>real (length (whitelistedPeers demo_s4)) / 2\<rceil>) = 1
   \<and> blockchain (finalizeBlock demo demo_s4) = [createGenesisBlock demo 1000, demo_good]
   \<and> demo_pending \<noteq> demo_good"
proof -
  have r: "reachable demo ''N'' 1000 demo_s4"
    unfolding demo_s4_def by (intro reachable_step demo_s3_reachable)
  have a: "approveCount [(''N'', demo_vote)] = 1"
    by (simp add: approveCount_def Map_values_def demo_vote_def)
  have q: "max (minVotes demo_s4) (nat \<lceil>real (length (whitelistedPeers demo_s4)) / 2\<rceil>) = 1"
    by (simp add: demo_s4_eval demo_s3_eval ceil_half_eq [symmetric] ceil_half_def)
  have n: "\<not> validateBlock demo demo_s4 demo_pending"
    by (simp add: validateBlock_iff demo_s4_eval demo_pending_def next_block_def demo_s0_chain)
  have f: "blockchain (finalizeBlock demo demo_s4) = [createGenesisBlock demo 1000, demo_good]"
    using n by (simp add: finalizeBlock_def Let_def addBlock_def demo_s4_eval demo_s3_eval Map_get_def)
  have d: "demo_pending \<noteq> demo_good"
    by (simp add: demo_pending_def demo_good_def next_block_def)
  from r a q f d show ?thesis by (simp add: demo_s4_eval demo_s3_eval Map_get_def)
qed


subsection \<open>An emptied whitelist\<close>




subsection \<open>Applying a sync response\<close>

lemma handleSyncResponse_append:
  "handleSyncResponse c (xs @ ys) s = handleSyncResponse c ys (handleSyncResponse c xs s)"
  by (induction xs arbitrary: s) simp_all

lemma sync_subseq:
  "\<exists>ys. blockchain (handleSyncResponse c bs s) = blockchain s @ ys \<and> subseq ys bs"
proof (induction bs arbitrary: s)
  case Nil
  show ?case by simp
next
  case (Cons b bs)
  show ?case
  proof (cases "validateBlock c s b")
    case True
    from Cons [of "push_block b s"] obtain ys where
      "blockchain (handleSyncResponse c bs (push_block b s)) = (blockchain s @ [b]) @ ys" "subseq ys bs"
      by (auto simp: push_block_def)
    with True show ?thesis
      by (intro exI [of _ "b # ys"]) (simp add: push_block_def)
  next
    case False
    from Cons [of s] obtain ys where
      "blockchain (handleSyncResponse c bs s) = blockchain s @ ys" "subseq ys bs" by blast
    with False show ?thesis by (intro exI [of _ ys]) (simp add: list_emb_Cons)
  qed
qed

text \<open>
  Claim C7, as amended. The blocks of a sync response are applied in order, each validated
  against the chain as it is when its turn comes; a block that fails validation is skipped
  and the blocks after it are still processed, so the outcome is the one of the response
  without that block. The blocks appended are a subsequence of the response, in its order.
\<close>

theorem handleSyncResponse_skips_invalid:
  "handleSyncResponse c (bs @ b # bs') s =
     handleSyncResponse c bs'
       (if validateBlock c (handleSyncResponse c bs s) b
        then push_block b (handleSyncResponse c bs s)
        else handleSyncResponse c bs s)
   \<and> (\<not> validateBlock c (handleSyncResponse c bs s) b \<longrightarrow>
        handleSyncResponse c (bs @ b # bs') s = handleSyncResponse c (bs @ bs') s)
   \<and> (\<exists>ys. blockchain (handleSyncResponse c bs s) = blockchain s @ ys \<and> subseq ys bs)"
  using sync_subseq [of c bs s]
  by (simp add: handleSyncResponse_append push_block_def)

lemma demo_bad_invalid: "\<not> validateBlock demo demo_s0 demo_bad"
  by (simp add: validateBlock_iff demo_bad_def calculateBlockHash_def demo_def)

theorem handleSyncResponse_skips_invalid_witness:
  "\<not> validateBlock demo (handleSyncResponse demo [] demo_s0) demo_bad
   \<and> handleSyncResponse demo ([] @ demo_bad # [demo_good]) demo_s0
       = handleSyncResponse demo ([] @ [demo_good]) demo_s0"
proof -
  have n: "\<not> validateBlock demo (handleSyncResponse demo [] demo_s0) demo_bad"
    using demo_bad_invalid by simp
  from handleSyncResponse_skips_invalid [of demo "[]" demo_bad "[demo_good]" demo_s0] n
  show ?thesis by blast
qed

text \<open>
  Claim C7 as stated (no block after the first invalid one is appended) fails for the
  response \<open>[demo_bad, demo_good]\<close>: the first block has a wrong hash, and the second one is
  appended.
\<close>

theorem sync_abort_counterexample:
  "\<not> validateBlock demo demo_s0 demo_bad
   \<and> blockchain (handleSyncResponse demo [demo_bad, demo_good] demo_s0)
       = blockchain demo_s0 @ [demo_good]"
  using demo_bad_invalid demo_good_valid by simp

subsection \<open>File transfers\<close>

lemma demo_ft_eval:
  "demo_ft h n = \<lparr>availableFiles = [(''f1'', \<lparr>fi_id = ''f1'', fi_name = ''a.txt'', fi_size = 4,
        fi_type = ''text/plain'', fi_hash = h, fi_peerId = ''A'', availableAt = 10\<rparr>)],
      downloadProgress = [(''f1'', \<lparr>received = 0, total = 4\<rparr>)],
      activeTransfers = [''f1''],
      activeDownloads = Some [(''f1'', \<lparr>d_fileId = ''f1'', d_fileName = ''a.txt'', d_fileSize = 4,
        d_fileType = ''text/plain'', d_totalChunks = n, d_chunkSize = 65536, receivedChunks = [],
        d_peerId = ''A''\<rparr>)]\<rparr>"
  by (simp add: demo_ft_def ftm_init_def handleFileOffer_def requestFile_def handleFileMetadata_def
      Map_has_def Map_get_def Set_add_def maxConcurrentTransfers_def demo_offer_def demo_meta_def
      Let_def)

text \<open>
  Claim C1. A completed download should be checked against the SHA-256 of the offer and be
  discarded with \<open>download-failed\<close> on a mismatch. In the code, the offer of \<open>f1\<close> advertises
  the hash \<open>h\<close>; the single chunk \<open>abcd\<close> arrives; the download completes with those bytes,
  whatever \<open>h\<close> is, and no \<open>download-failed\<close> is emitted: no hash is computed or compared.
\<close>

theorem completed_without_hash_check:
  "map_option fi_hash (Map_get (availableFiles (demo_ft h 1)) ''f1'') = Some h
   \<and> handleFileChunk demo_atob ''A'' (demo_chunk 0 ''abcd'' True) (demo_ft h 1)
       = ((demo_ft h 1)\<lparr>downloadProgress := [], activeTransfers := [], activeDownloads := Some []\<rparr>,
          [DownloadProgress ''f1'' 4 4, DownloadCompleted ''f1'' ''abcd''])"
  by (simp add: demo_ft_eval handleFileChunk_def activeDownloads_get_def Map_get_def demo_chunk_def
      demo_atob_def Let_def assembleFile_def activeDownloads_delete_def Map_delete_def
      Set_delete_def)


subsection \<open>The catalogue of remote offers\<close>

lemma Map_has_set: "Map_has (Map_set m k v) k' \<longleftrightarrow> k' = k \<or> Map_has m k'"
  using Map_get_set [of m k v k'] by (auto simp: Map_has_def Map_get_def)

lemma Map_get_delete: "Map_get (Map_delete m k) k' = (if k' = k then None else Map_get m k')"
  by (induction m) (auto simp: Map_get_def Map_delete_def)

lemma Map_set_same: "Map_get m k = Some v \<Longrightarrow> Map_set m k v = m"
  by (induction m) (auto simp: Map_get_def)

lemma length_Map_set_known: "Map_get m k = Some v \<Longrightarrow> length (Map_set m k v') = length m"
  by (induction m) (auto simp: Map_get_def)

text \<open>
  Claim C6, as amended. Remote offers are keyed by file id and the first advertiser wins: an
  offer for an id that is already known changes nothing and emits nothing, so after an offer
  from \<open>p\<close> for an unknown id and a later offer from \<open>p'\<close> for the same id, the stored
  advertiser is \<open>p\<close>.
\<close>

theorem first_advertiser_wins:
  "(Map_has (availableFiles s) (o_fileId off) \<longrightarrow> handleFileOffer now p off s = (s, []))
   \<and> (\<not> Map_has (availableFiles s) (o_fileId off) \<and> o_fileId off' = o_fileId off \<longrightarrow>
        map_option fi_peerId
          (Map_get (availableFiles (fst (handleFileOffer now p off s))) (o_fileId off)) = Some p
        \<and> handleFileOffer now' p' off' (fst (handleFileOffer now p off s))
            = (fst (handleFileOffer now p off s), []))"
  by (simp add: handleFileOffer_def Let_def Map_get_set Map_has_set)

theorem first_advertiser_wins_witness:
  "\<not> Map_has (availableFiles ftm_init) (o_fileId (demo_offer ''f1'' ''H''))
   \<and> map_option fi_peerId
        (Map_get (availableFiles (fst (handleFileOffer 10 ''A'' (demo_offer ''f1'' ''H'') ftm_init)))
           (o_fileId (demo_offer ''f1'' ''H''))) = Some ''A''
   \<and> Map_has (availableFiles (fst (handleFileOffer 10 ''A'' (demo_offer ''f1'' ''H'') ftm_init)))
        (o_fileId (demo_offer ''f1'' ''H''))
   \<and> handleFileOffer 20 ''B'' (demo_offer ''f1'' ''H'')
        (fst (handleFileOffer 10 ''A'' (demo_offer ''f1'' ''H'') ftm_init))
       = (fst (handleFileOffer 10 ''A'' (demo_offer ''f1'' ''H'') ftm_init), [])"
proof -
  have n: "\<not> Map_has (availableFiles ftm_init) (o_fileId (demo_offer ''f1'' ''H''))"
    by (simp add: ftm_init_def Map_has_def)
  have h: "Map_has (availableFiles (fst (handleFileOffer 10 ''A'' (demo_offer ''f1'' ''H'') ftm_init)))
        (o_fileId (demo_offer ''f1'' ''H''))"
    using n by (simp add: handleFileOffer_def Let_def Map_has_set)
  from first_advertiser_wins [of ftm_init "demo_offer ''f1'' ''H''" 10 "''A''"
      "demo_offer ''f1'' ''H''" 20 "''B''"]
    first_advertiser_wins [of "fst (handleFileOffer 10 ''A'' (demo_offer ''f1'' ''H'') ftm_init)"
      "demo_offer ''f1'' ''H''" 20 "''B''"] n h
  show ?thesis by simp
qed

text \<open>
  Claim C6 as stated (the most recent advertiser wins) fails: after an offer of \<open>f1\<close> from
  \<open>A\<close> and then the same offer from \<open>B\<close>, the stored advertiser is \<open>A\<close>.
\<close>

theorem latest_advertiser_counterexample:
  "map_option fi_peerId
     (Map_get (availableFiles
        (fst (handleFileOffer 20 ''B'' (demo_offer ''f1'' ''H'')
           (fst (handleFileOffer 10 ''A'' (demo_offer ''f1'' ''H'') ftm_init))))) ''f1'')
     = Some ''A''"
  by (simp add: handleFileOffer_def Let_def Map_has_def Map_get_def ftm_init_def demo_offer_def)

subsection \<open>The download cap\<close>

lemma Set_delete_inv:
  "length xs \<le> n \<and> distinct xs \<Longrightarrow> length (Set_delete xs x) \<le> n \<and> distinct (Set_delete xs x)"
  by (auto simp: Set_delete_def distinct_removeAll intro: order_trans [OF length_removeAll_less_eq])


lemma assembleFile_cap: "cap_inv s \<Longrightarrow> cap_inv (fst (assembleFile di s))"
  using Set_delete_inv [of "activeTransfers s" maxConcurrentTransfers "d_fileId di"]
  by (auto simp: cap_inv_def assembleFile_def split: option.splits)













text \<open>
  The cap is on \<open>activeTransfers\<close>, the ids that \<open>requestFile\<close> has added. The download
  records that \<open>handleFileMetadata\<close> opens are not counted and not capped: four
  \<open>file-metadata\<close> messages leave four records.
\<close>

lemma download_records_uncapped:
  "map_option (map fst) (activeDownloads
     (ft_step demo_atob (HandleFileMetadata ''A'' ((demo_meta 2)\<lparr>m_fileId := ''g4''\<rparr>))
       (ft_step demo_atob (HandleFileMetadata ''A'' ((demo_meta 2)\<lparr>m_fileId := ''g3''\<rparr>))
         (ft_step demo_atob (HandleFileMetadata ''A'' ((demo_meta 2)\<lparr>m_fileId := ''g2''\<rparr>))
           (ft_step demo_atob (HandleFileMetadata ''A'' ((demo_meta 2)\<lparr>m_fileId := ''g1''\<rparr>))
              ftm_init)))))
   = Some [''g1'', ''g2'', ''g3'', ''g4'']"
  by (simp add: handleFileMetadata_def ftm_init_def demo_meta_def Let_def)

subsection \<open>Duplicate and late chunks\<close>

lemma Map_set_keys: "Map_get m k = Some v \<Longrightarrow> map fst (Map_set m k v') = map fst m"
  by (induction m) (auto simp: Map_get_def)

lemma handleFileChunk_unknown:
  "activeDownloads_get s (c_fileId ch) = None \<Longrightarrow> handleFileChunk atob p ch s = (s, [])"
  by (simp add: handleFileChunk_def)

lemma assembleFile_completed:
  "assembleFile di s = (s', ev) \<Longrightarrow> DownloadCompleted fid bytes \<in> set ev \<Longrightarrow>
     activeDownloads_get s' fid = None"
  by (auto simp: assembleFile_def activeDownloads_get_def activeDownloads_delete_def Map_get_delete
      split: option.splits)

lemma assembleFile_completed':
  "DownloadCompleted fid bytes \<in> set (snd (assembleFile di s)) \<Longrightarrow>
     activeDownloads_get (fst (assembleFile di s)) fid = None"
  using assembleFile_completed [of di s "fst (assembleFile di s)" "snd (assembleFile di s)"]
  by simp

lemma handleFileChunk_completed:
  assumes "DownloadCompleted (c_fileId ch) bytes \<in> set (snd (handleFileChunk atob p ch s))"
  shows "activeDownloads_get (fst (handleFileChunk atob p ch s)) (c_fileId ch) = None"
  using assms
  by (auto simp: handleFileChunk_def Let_def split: option.splits prod.splits if_splits
      dest: assembleFile_completed assembleFile_completed')

lemma handleFileChunk_duplicate:
  assumes di: "activeDownloads_get s (c_fileId ch) = Some di"
    and rc: "Map_get (receivedChunks di) (c_chunkIndex ch) = Some buf0"
    and dec: "atob (c_chunkData ch) = Some buf"
    and inc: "length (receivedChunks di) \<noteq> d_totalChunks di"
  shows "activeDownloads_get (fst (handleFileChunk atob p ch s)) (c_fileId ch)
           = Some (di\<lparr>receivedChunks := Map_set (receivedChunks di) (c_chunkIndex ch) buf\<rparr>)"
    and "map fst (Map_set (receivedChunks di) (c_chunkIndex ch) buf) = map fst (receivedChunks di)"
    and "buf = buf0 \<Longrightarrow> activeDownloads (fst (handleFileChunk atob p ch s)) = activeDownloads s"
    and "activeTransfers (fst (handleFileChunk atob p ch s)) = activeTransfers s"
    and "availableFiles (fst (handleFileChunk atob p ch s)) = availableFiles s"
    and "Map_get (downloadProgress s) (c_fileId ch) = Some pr \<Longrightarrow>
           Map_get (downloadProgress (fst (handleFileChunk atob p ch s))) (c_fileId ch)
             = Some (pr\<lparr>received := received pr + length buf\<rparr>)
           \<and> snd (handleFileChunk atob p ch s)
             = [DownloadProgress (c_fileId ch) (received pr + length buf) (total pr)]"
proof -
  from di obtain a where a: "activeDownloads s = Some a" "Map_get a (c_fileId ch) = Some di"
    by (auto simp: activeDownloads_get_def split: option.splits)
  have len: "length (Map_set (receivedChunks di) (c_chunkIndex ch) buf) \<noteq> d_totalChunks di"
    using inc length_Map_set_known [OF rc] by simp
  show "map fst (Map_set (receivedChunks di) (c_chunkIndex ch) buf) = map fst (receivedChunks di)"
    by (rule Map_set_keys [OF rc])
  show "activeDownloads_get (fst (handleFileChunk atob p ch s)) (c_fileId ch)
           = Some (di\<lparr>receivedChunks := Map_set (receivedChunks di) (c_chunkIndex ch) buf\<rparr>)"
    using di dec len a
    by (simp add: handleFileChunk_def Let_def activeDownloads_get_def Map_get_set
        split: option.splits prod.splits)
  show "activeTransfers (fst (handleFileChunk atob p ch s)) = activeTransfers s"
    using di dec len a
    by (simp add: handleFileChunk_def Let_def split: option.splits prod.splits)
  show "availableFiles (fst (handleFileChunk atob p ch s)) = availableFiles s"
    using di dec len a
    by (simp add: handleFileChunk_def Let_def split: option.splits prod.splits)
  show "activeDownloads (fst (handleFileChunk atob p ch s)) = activeDownloads s" if "buf = buf0"
    using di dec len a that Map_set_same [OF rc] Map_set_same [OF a(2)]
    by (simp add: handleFileChunk_def Let_def split: option.splits prod.splits)
  show "Map_get (downloadProgress (fst (handleFileChunk atob p ch s))) (c_fileId ch)
             = Some (pr\<lparr>received := received pr + length buf\<rparr>)
           \<and> snd (handleFileChunk atob p ch s)
             = [DownloadProgress (c_fileId ch) (received pr + length buf) (total pr)]"
    if "Map_get (downloadProgress s) (c_fileId ch) = Some pr"
    using di dec len a that
    by (simp add: handleFileChunk_def Let_def Map_get_set split: option.splits prod.splits)
qed


text \<open>
  Claim C9, as amended. For a chunk whose index is already among the received chunks of an
  incomplete transfer: the set of received indices is unchanged, the stored bytes of that
  index become those of the new copy (so an identical copy leaves the whole table of downloads
  unchanged), the active transfers and the offers are unchanged, but the progress is not the
  same: \<open>received\<close> grows by the length of the copy and a progress event reports it. A chunk
  for a file with no download record is ignored with no change of state, and that is the case
  for every chunk that arrives after the handler has emitted \<open>download-completed\<close> for the
  file.
\<close>

theorem duplicate_chunk_progress:
  "(activeDownloads_get s (c_fileId ch) = Some di
      \<and> Map_get (receivedChunks di) (c_chunkIndex ch) = Some buf0
      \<and> atob (c_chunkData ch) = Some buf
      \<and> length (receivedChunks di) \<noteq> d_totalChunks di \<longrightarrow>
        activeDownloads_get (fst (handleFileChunk atob p ch s)) (c_fileId ch)
          = Some (di\<lparr>receivedChunks := Map_set (receivedChunks di) (c_chunkIndex ch) buf\<rparr>)
      \<and> map fst (Map_set (receivedChunks di) (c_chunkIndex ch) buf) = map fst (receivedChunks di)
      \<and> (buf = buf0 \<longrightarrow> activeDownloads (fst (handleFileChunk atob p ch s)) = activeDownloads s)
      \<and> activeTransfers (fst (handleFileChunk atob p ch s)) = activeTransfers s
      \<and> availableFiles (fst (handleFileChunk atob p ch s)) = availableFiles s
      \<and> (\<forall>pr. Map_get (downloadProgress s) (c_fileId ch) = Some pr \<longrightarrow>
            Map_get (downloadProgress (fst (handleFileChunk atob p ch s))) (c_fileId ch)
              = Some (pr\<lparr>received := received pr + length buf\<rparr>)
            \<and> snd (handleFileChunk atob p ch s)
              = [DownloadProgress (c_fileId ch) (received pr + length buf) (total pr)]))
   \<and> (activeDownloads_get s (c_fileId ch) = None \<longrightarrow> handleFileChunk atob p ch s = (s, []))
   \<and> (DownloadCompleted (c_fileId ch) bytes \<in> set (snd (handleFileChunk atob p ch s))
        \<and> c_fileId ch' = c_fileId ch \<longrightarrow>
        handleFileChunk atob p' ch' (fst (handleFileChunk atob p ch s))
          = (fst (handleFileChunk atob p ch s), []))"
proof (intro conjI impI)
  assume "DownloadCompleted (c_fileId ch) bytes \<in> set (snd (handleFileChunk atob p ch s))
            \<and> c_fileId ch' = c_fileId ch"
  then show "handleFileChunk atob p' ch' (fst (handleFileChunk atob p ch s))
          = (fst (handleFileChunk atob p ch s), [])"
    using handleFileChunk_completed [of ch bytes atob p s]
    by (simp add: handleFileChunk_unknown)
qed (auto simp: handleFileChunk_unknown handleFileChunk_duplicate)

lemma demo_ft_half_eval:
  "demo_ft_half = (demo_ft ''H'' 2)\<lparr>
      downloadProgress := [(''f1'', \<lparr>received = 2, total = 4\<rparr>)],
      activeDownloads := Some [(''f1'', \<lparr>d_fileId = ''f1'', d_fileName = ''a.txt'', d_fileSize = 4,
        d_fileType = ''text/plain'', d_totalChunks = 2, d_chunkSize = 65536,
        receivedChunks = [(0, ''ab'')], d_peerId = ''A''\<rparr>)]\<rparr>"
  by (simp add: demo_ft_half_def demo_ft_eval handleFileChunk_def activeDownloads_get_def
      Map_get_def demo_chunk_def demo_atob_def Let_def)

text \<open>
  Claim C9 as stated (the state, progress included, is the same after the duplicate as after
  the first copy) fails: in \<open>demo_ft_half\<close> chunk 0 (2 bytes of 4) has been received once and
  \<open>received\<close> is 2; after the same chunk again \<open>received\<close> is 4.
\<close>

theorem duplicate_chunk_counterexample:
  "Map_get (downloadProgress demo_ft_half) ''f1'' = Some \<lparr>received = 2, total = 4\<rparr>
   \<and> Map_get (downloadProgress
         (fst (handleFileChunk demo_atob ''A'' (demo_chunk 0 ''ab'' False) demo_ft_half))) ''f1''
       = Some \<lparr>received = 4, total = 4\<rparr>
   \<and> fst (handleFileChunk demo_atob ''A'' (demo_chunk 0 ''ab'' False) demo_ft_half) \<noteq> demo_ft_half"
proof -
  have a: "Map_get (downloadProgress demo_ft_half) ''f1'' = Some \<lparr>received = 2, total = 4\<rparr>"
    by (simp add: demo_ft_half_eval Map_get_def)
  have b: "Map_get (downloadProgress
         (fst (handleFileChunk demo_atob ''A'' (demo_chunk 0 ''ab'' False) demo_ft_half))) ''f1''
       = Some \<lparr>received = 4, total = 4\<rparr>"
    by (simp add: demo_ft_half_eval demo_ft_eval handleFileChunk_def activeDownloads_get_def
        Map_get_def demo_chunk_def demo_atob_def Let_def)
  from a b show ?thesis by auto
qed

theorem duplicate_chunk_progress_witness:
  "activeDownloads_get demo_ft_half ''f1''
     = Some \<lparr>d_fileId = ''f1'', d_fileName = ''a.txt'', d_fileSize = 4,
        d_fileType = ''text/plain'', d_totalChunks = 2, d_chunkSize = 65536,
        receivedChunks = [(0, ''ab'')], d_peerId = ''A''\<rparr>
   \<and> activeDownloads (fst (handleFileChunk demo_atob ''A'' (demo_chunk 0 ''ab'' False) demo_ft_half))
       = activeDownloads demo_ft_half
   \<and> snd (handleFileChunk demo_atob ''A'' (demo_chunk 0 ''ab'' False) demo_ft_half)
       = [DownloadProgress ''f1'' 4 4]
   \<and> activeDownloads_get ftm_init ''f1'' = None
   \<and> handleFileChunk demo_atob ''A'' (demo_chunk 0 ''ab'' False) ftm_init = (ftm_init, [])
   \<and> DownloadCompleted ''f1'' ''abcd''
        \<in> set (snd (handleFileChunk demo_atob ''A'' (demo_chunk 0 ''abcd'' True) (demo_ft ''H'' 1)))
   \<and> handleFileChunk demo_atob ''A'' (demo_chunk 0 ''abcd'' True)
        (fst (handleFileChunk demo_atob ''A'' (demo_chunk 0 ''abcd'' True) (demo_ft ''H'' 1)))
       = (fst (handleFileChunk demo_atob ''A'' (demo_chunk 0 ''abcd'' True) (demo_ft ''H'' 1)), [])"
proof -
  let ?di = "\<lparr>d_fileId = ''f1'', d_fileName = ''a.txt'', d_fileSize = 4,
        d_fileType = ''text/plain'', d_totalChunks = 2, d_chunkSize = 65536,
        receivedChunks = [(0::nat, ''ab'')], d_peerId = ''A''\<rparr>"
  let ?ch = "demo_chunk 0 ''ab'' False"
  let ?last = "demo_chunk 0 ''abcd'' True"
  have f: "c_fileId ?ch = ''f1''" "c_chunkIndex ?ch = 0" "c_fileId ?last = ''f1''"
    by (simp_all add: demo_chunk_def)
  have h1: "activeDownloads_get demo_ft_half (c_fileId ?ch) = Some ?di"
    by (simp add: demo_ft_half_eval activeDownloads_get_def Map_get_def f)
  have h2: "Map_get (receivedChunks ?di) (c_chunkIndex ?ch) = Some ''ab''"
    by (simp add: Map_get_def f)
  have h3: "demo_atob (c_chunkData ?ch) = Some ''ab''"
    by (simp add: demo_atob_def demo_chunk_def)
  have h4: "length (receivedChunks ?di) \<noteq> d_totalChunks ?di" by simp
  have h5: "Map_get (downloadProgress demo_ft_half) (c_fileId ?ch) = Some \<lparr>received = 2, total = 4\<rparr>"
    by (simp add: demo_ft_half_eval Map_get_def f)
  have u: "activeDownloads_get ftm_init (c_fileId ?ch) = None"
    by (simp add: ftm_init_def activeDownloads_get_def)
  have d: "DownloadCompleted (c_fileId ?last) ''abcd''
        \<in> set (snd (handleFileChunk demo_atob ''A'' ?last (demo_ft ''H'' 1)))"
    by (simp add: demo_ft_eval handleFileChunk_def activeDownloads_get_def Map_get_def
        demo_chunk_def demo_atob_def Let_def assembleFile_def)
  note t1 = duplicate_chunk_progress [where s = demo_ft_half and ch = ?ch and di = ?di
      and ?buf0.0 = "''ab''" and buf = "''ab''" and atob = demo_atob and p = "''A''"]
  note t2 = duplicate_chunk_progress [where s = ftm_init and ch = ?ch and atob = demo_atob
      and p = "''A''"]
  note t3 = duplicate_chunk_progress [where s = "demo_ft ''H'' 1" and ch = ?last and ch' = ?last
      and atob = demo_atob and p = "''A''" and p' = "''A''" and bytes = "''abcd''"]
  from t1 h1 h2 h3 h4 h5 have
    "activeDownloads (fst (handleFileChunk demo_atob ''A'' ?ch demo_ft_half)) = activeDownloads demo_ft_half"
    "snd (handleFileChunk demo_atob ''A'' ?ch demo_ft_half) = [DownloadProgress ''f1'' 4 4]"
    by (simp_all add: f)
  moreover from t2 u have "handleFileChunk demo_atob ''A'' ?ch ftm_init = (ftm_init, [])"
    by blast
  moreover from t3 d have "handleFileChunk demo_atob ''A'' ?last
        (fst (handleFileChunk demo_atob ''A'' ?last (demo_ft ''H'' 1)))
       = (fst (handleFileChunk demo_atob ''A'' ?last (demo_ft ''H'' 1)), [])"
    by blast
  ultimately show ?thesis using h1 u d by (simp add: f)
qed

end
